theory Spec2Isabelle
  imports Main
begin

section \<open>The favorites panel (LeftPanel.tsx): data model\<close>

text \<open>
  Where two objects of the source have a property of the same name, the field carries
  a letter for its record: \<open>flabel\<close>, \<open>fpath\<close>, \<open>ficon\<close> for the \<open>label\<close>, \<open>path\<close> and
  \<open>icon\<close> of a favorite, \<open>nid\<close>, \<open>nkey\<close>, \<open>nlabel\<close>, \<open>nicon\<close> for the \<open>id\<close>, \<open>key\<close>, \<open>label\<close>
  and \<open>icon\<close> of a child node, \<open>gid\<close> and \<open>glabel\<close> for the \<open>id\<close> and \<open>label\<close> of a group.
\<close>

text \<open>
  A \<open>Favorite\<close> of the favorites store. The label and the icon are optional here
  (\<open>None\<close> is JavaScript's \<open>undefined\<close>), since the panel reads them without any check.
\<close>

record favorite =
  flabel :: "string option"
  fpath :: string
  ficon :: "string option"

record favorites =
  shortcuts :: "favorite list"
  places :: "favorite list"
  distributions :: "favorite list option"

text \<open>
  What the panel takes from its surroundings: the translation function \<open>t\<close> of its
  props, the constant \<open>USERNAME\<close>, the table \<open>Icons\<close> and the platform flag \<open>isMac\<close>.
\<close>

record env =
  t :: "string \<Rightarrow> string"
  USERNAME :: string
  Icons :: "string \<Rightarrow> string option"
  isMac :: bool

text \<open>The JSX element \<open><span title={..}>{..}</span>\<close> that labels a child node.\<close>

record span =
  title :: string
  content :: "string option"

text \<open>
  A child node of a group (an \<open>ITreeNode\<close> with string data built by \<open>buildNodes\<close>).
  \<open>isSelected = None\<close> is a node whose \<open>isSelected\<close> property has never been written.
\<close>

record tree_node =
  nid :: string
  nkey :: string
  nlabel :: span
  nicon :: "string option"
  nodeData :: string
  isSelected :: "bool option"

text \<open>A root node of the tree: one group with its child nodes.\<close>

record tree_group =
  gid :: nat
  hasCaret :: bool
  isExpanded :: bool
  glabel :: string
  childNodes :: "tree_node list"

text \<open>
  The component: its state \<open>nodes\<close>, its field \<open>showDistributions\<close>, its prop \<open>hide\<close>
  and the favorites store it reads (\<open>this.favoritesState\<close>). The state's \<open>selectedNode\<close>
  is \<open>null\<close> from the constructor on and is never written: it is left out.
\<close>

record panel =
  nodes :: "tree_group list"
  showDistributions :: bool
  hide :: bool
  favoritesState :: favorites

datatype js_error = TypeError

text \<open>The value a rejected promise carries: \<open>err.message\<close> and \<open>err.code\<close>.\<close>

record failure =
  fmessage :: string
  fcode :: "string option"

text \<open>How a promise settles.\<close>

datatype 'a settled = Fulfilled 'a | Rejected failure

subsection \<open>JavaScript helpers\<close>

text \<open>\<open>xs[i]\<close>: reading past the end gives \<open>undefined\<close>.\<close>

definition js_index :: "'a list \<Rightarrow> nat \<Rightarrow> 'a option" where
  "js_index xs i = (if i < length xs then Some (xs ! i) else None)"

text \<open>A value inside a template literal: \<open>undefined\<close> prints as the word.\<close>

definition js_string :: "string option \<Rightarrow> string" where
  "js_string v = (case v of None \<Rightarrow> ''undefined'' | Some s \<Rightarrow> s)"

text \<open>\<open>Array.prototype.find\<close>, returning the position of the element found: the
  position stands for the reference to the node object that the source gets.\<close>

fun find_index :: "('a \<Rightarrow> bool) \<Rightarrow> 'a list \<Rightarrow> nat option" where
  "find_index P [] = None"
| "find_index P (x # xs) = (if P x then Some 0 else map_option Suc (find_index P xs))"

subsection \<open>constructor, checkForWSL\<close>

definition constructor :: "env \<Rightarrow> bool \<Rightarrow> favorites \<Rightarrow> panel" where
  "constructor e h favs =
     \<lparr>nodes =
        [\<lparr>gid = 0, hasCaret = True, isExpanded = True,
          glabel = t e ''FAVORITES_PANEL.SHORTCUTS'', childNodes = []\<rparr>,
         \<lparr>gid = 1, hasCaret = True, isExpanded = True,
          glabel = t e ''FAVORITES_PANEL.PLACES'', childNodes = []\<rparr>],
      showDistributions = False,
      hide = h,
      favoritesState = favs\<rparr>"

text \<open>
  \<open>checkForWSL\<close> from the point where \<open>await hasWSL()\<close> settles. A rejected probe
  leaves the assignment undone: the async function ends there.
\<close>

definition checkForWSL :: "env \<Rightarrow> bool settled \<Rightarrow> panel \<Rightarrow> panel" where
  "checkForWSL e probe p =
     (case probe of
        Rejected _ \<Rightarrow> p
      | Fulfilled b \<Rightarrow>
          (if b then
             p\<lparr>showDistributions := True,
               nodes := nodes p @
                 [\<lparr>gid = 2, hasCaret = True, isExpanded = True,
                   glabel = t e ''FAVORITES_PANEL.LINUX'', childNodes = []\<rparr>]\<rparr>
           else p\<lparr>showDistributions := False\<rparr>))"

subsection \<open>buildNodes\<close>

definition shortcutNode :: "env \<Rightarrow> favorite \<Rightarrow> tree_node" where
  "shortcutNode e shortcut =
     \<lparr>nid = ''s_'' @ fpath shortcut,
      nkey = ''s_'' @ fpath shortcut,
      nlabel = \<lparr>title = fpath shortcut,
                content = Some (if flabel shortcut = Some ''HOME_DIR'' then USERNAME e
                                else t e (''FAVORITES_PANEL.'' @ js_string (flabel shortcut)))\<rparr>,
      nicon = Icons e (js_string (flabel shortcut)),
      nodeData = fpath shortcut,
      isSelected = None\<rparr>"

definition placeNode :: "favorite \<Rightarrow> tree_node" where
  "placeNode place =
     \<lparr>nid = ''p_'' @ fpath place,
      nkey = ''p_'' @ fpath place,
      nlabel = \<lparr>title = fpath place, content = flabel place\<rparr>,
      nicon = ficon place,
      nodeData = fpath place,
      isSelected = None\<rparr>"

definition distribNode :: "favorite \<Rightarrow> tree_node" where
  "distribNode distrib =
     \<lparr>nid = ''p_'' @ fpath distrib,
      nkey = ''p_'' @ fpath distrib,
      nlabel = \<lparr>title = fpath distrib, content = flabel distrib\<rparr>,
      nicon = ficon distrib,
      nodeData = fpath distrib,
      isSelected = None\<rparr>"

text \<open>\<open>nodes[i].childNodes = cs\<close>: a TypeError when \<open>nodes[i]\<close> is undefined.\<close>

definition setChildNodes :: "nat \<Rightarrow> tree_node list \<Rightarrow> tree_group list \<Rightarrow> js_error + tree_group list" where
  "setChildNodes i cs ns =
     (case js_index ns i of
        None \<Rightarrow> Inl TypeError
      | Some g \<Rightarrow> Inr (ns[i := g\<lparr>childNodes := cs\<rparr>]))"

text \<open>\<open>nodes[i].label = l\<close>, likewise.\<close>

definition setLabel :: "nat \<Rightarrow> string \<Rightarrow> tree_group list \<Rightarrow> js_error + tree_group list" where
  "setLabel i l ns =
     (case js_index ns i of
        None \<Rightarrow> Inl TypeError
      | Some g \<Rightarrow> Inr (ns[i := g\<lparr>glabel := l\<rparr>]))"

definition bind_err :: "js_error + 'a \<Rightarrow> ('a \<Rightarrow> js_error + 'b) \<Rightarrow> js_error + 'b" where
  "bind_err r f = (case r of Inl err \<Rightarrow> Inl err | Inr v \<Rightarrow> f v)"

text \<open>
  \<open>buildNodes\<close>, statement by statement: the children of the shortcuts group, of the
  places group, of the third group under its guard, then the three labels (the third
  one only if \<open>nodes[2]\<close> exists), then \<open>setState\<close>. When a statement raises, the
  result is the error alone.
\<close>

definition buildNodes :: "env \<Rightarrow> favorites \<Rightarrow> panel \<Rightarrow> js_error + panel" where
  "buildNodes e favs p =
     bind_err (setChildNodes 0 (map (shortcutNode e) (shortcuts favs)) (nodes p)) (\<lambda>ns1.
     bind_err (setChildNodes 1 (map placeNode (places favs)) ns1) (\<lambda>ns2.
     bind_err (case (if showDistributions p then distributions favs else None) of
                 Some ds \<Rightarrow> setChildNodes 2 (map distribNode ds) ns2
               | None \<Rightarrow> Inr ns2) (\<lambda>ns3.
     bind_err (setLabel 1 (t e ''FAVORITES_PANEL.PLACES'') ns3) (\<lambda>ns4.
     bind_err (setLabel 0 (t e ''FAVORITES_PANEL.SHORTCUTS'') ns4) (\<lambda>ns5.
     bind_err (case js_index ns5 2 of
                 Some _ \<Rightarrow> setLabel 2 (t e ''FAVORITES_PANEL.LINUX'') ns5
               | None \<Rightarrow> Inr ns5) (\<lambda>ns6.
     Inr (p\<lparr>nodes := ns6\<rparr>)))))))"

subsection \<open>getNodeFromPath, setActiveNode, onNodeToggle\<close>

text \<open>\<open>nodes[i].childNodes\<close>: a TypeError when \<open>nodes[i]\<close> is undefined.\<close>

definition childNodesAt :: "tree_group list \<Rightarrow> nat \<Rightarrow> js_error + tree_node list" where
  "childNodesAt ns i =
     (case js_index ns i of None \<Rightarrow> Inl TypeError | Some g \<Rightarrow> Inr (childNodes g))"

text \<open>
  The node found is returned as its place in the tree (group, position in the group),
  or \<open>None\<close> for \<open>undefined\<close>.
\<close>

definition getNodeFromPath :: "string \<Rightarrow> panel \<Rightarrow> js_error + (nat \<times> nat) option" where
  "getNodeFromPath path p =
     bind_err (childNodesAt (nodes p) 0) (\<lambda>shortcutNodes.
     bind_err (childNodesAt (nodes p) 1) (\<lambda>placeNodes.
       let found =
             (case find_index (\<lambda>node. nodeData node = path) shortcutNodes of
                Some i \<Rightarrow> Some (0, i)
              | None \<Rightarrow> map_option (Pair 1)
                          (find_index (\<lambda>node. nodeData node = path) placeNodes))
       in if found \<noteq> None \<or> \<not> showDistributions p then Inr found
          else bind_err (childNodesAt (nodes p) 2) (\<lambda>distribs.
                 Inr (map_option (Pair 2)
                        (find_index (\<lambda>node. nodeData node = path) distribs)))))"

definition clearSelection :: "tree_group list \<Rightarrow> tree_group list" where
  "clearSelection ns =
     map (\<lambda>node. node\<lparr>childNodes :=
            map (\<lambda>childNode. childNode\<lparr>isSelected := Some False\<rparr>) (childNodes node)\<rparr>) ns"

text \<open>\<open>selectedNode.isSelected = true\<close> on the node at a place that \<open>find\<close> returned.\<close>

definition markSelected :: "nat \<times> nat \<Rightarrow> tree_group list \<Rightarrow> tree_group list" where
  "markSelected loc ns =
     (case loc of (gi, ci) \<Rightarrow>
        ns[gi := (ns ! gi)\<lparr>childNodes :=
             (childNodes (ns ! gi))[ci := (childNodes (ns ! gi) ! ci)\<lparr>isSelected := Some True\<rparr>]\<rparr>])"

definition setActiveNode :: "string \<Rightarrow> panel \<Rightarrow> js_error + panel" where
  "setActiveNode path p =
     (let p1 = p\<lparr>nodes := clearSelection (nodes p)\<rparr>
      in bind_err (getNodeFromPath path p1) (\<lambda>selectedNode.
           case selectedNode of
             None \<Rightarrow> Inr p1
           | Some loc \<Rightarrow> Inr (p1\<lparr>nodes := markSelected loc (nodes p1)\<rparr>)))"

text \<open>\<open>onNodeToggle\<close> on the root node at position \<open>i\<close> (only root nodes have a caret).\<close>

definition onNodeToggle :: "nat \<Rightarrow> panel \<Rightarrow> panel" where
  "onNodeToggle i p =
     (case js_index (nodes p) i of
        None \<Rightarrow> p
      | Some node \<Rightarrow> p\<lparr>nodes := (nodes p)[i := node\<lparr>isExpanded := \<not> isExpanded node\<rparr>]\<rparr>)"

subsection \<open>The reactions and the language handler\<close>

definition onPlacesUpdated :: "env \<Rightarrow> panel \<Rightarrow> js_error + panel" where
  "onPlacesUpdated e p =
     (if \<not> hide p then buildNodes e (favoritesState p) p else Inr p)"

definition onDistributionsUpdated :: "env \<Rightarrow> panel \<Rightarrow> js_error + panel" where
  "onDistributionsUpdated e p =
     (if \<not> hide p then buildNodes e (favoritesState p) p else Inr p)"

definition onLanguageChanged :: "env \<Rightarrow> panel \<Rightarrow> js_error + panel" where
  "onLanguageChanged e p = buildNodes e (favoritesState p) p"

subsection \<open>The life of a panel\<close>

text \<open>
  What can happen to a mounted panel, apart from the probe: a collection of the store
  is replaced (the reaction installed for it, if there is one, then runs), the language
  changes, the parent changes the prop \<open>hide\<close>, the panel renders with the active path, a
  root node is toggled. No reaction is installed for the shortcuts.
\<close>

datatype event =
    ShortcutsChanged "favorite list"
  | PlacesChanged "favorite list"
  | DistributionsChanged "favorite list option"
  | LanguageChanged
  | HideChanged bool
  | Render string
  | NodeToggle nat

fun step :: "env \<Rightarrow> event \<Rightarrow> panel \<Rightarrow> js_error + panel" where
  "step e (ShortcutsChanged xs) p =
     Inr (p\<lparr>favoritesState := (favoritesState p)\<lparr>shortcuts := xs\<rparr>\<rparr>)"
| "step e (PlacesChanged xs) p =
     onPlacesUpdated e (p\<lparr>favoritesState := (favoritesState p)\<lparr>places := xs\<rparr>\<rparr>)"
| "step e (DistributionsChanged xs) p =
     onDistributionsUpdated e (p\<lparr>favoritesState := (favoritesState p)\<lparr>distributions := xs\<rparr>\<rparr>)"
| "step e LanguageChanged p = onLanguageChanged e p"
| "step e (HideChanged h) p = Inr (p\<lparr>hide := h\<rparr>)"
| "step e (Render path) p = setActiveNode path p"
| "step e (NodeToggle i) p = Inr (onNodeToggle i p)"

fun run :: "env \<Rightarrow> event list \<Rightarrow> panel \<Rightarrow> js_error + panel" where
  "run e [] p = Inr p"
| "run e (ev # evs) p = bind_err (step e ev p) (run e evs)"

text \<open>
  A whole life: the constructor, events before the probe settles, the probe, events
  after it. \<open>None\<close> is a probe that is never started (\<open>ENV.CY\<close>) or never settles.
\<close>

definition lifetime ::
  "env \<Rightarrow> bool \<Rightarrow> favorites \<Rightarrow> bool settled option \<Rightarrow> event list \<Rightarrow> event list \<Rightarrow> js_error + panel" where
  "lifetime e h favs probe before after =
     bind_err (run e before (constructor e h favs)) (\<lambda>p.
       run e after (case probe of None \<Rightarrow> p | Some r \<Rightarrow> checkForWSL e r p))"

text \<open>The shape of the tree that the constructor sets up and every handler keeps.\<close>

definition wellFormed :: "panel \<Rightarrow> bool" where
  "wellFormed p = (map gid (nodes p) = (if showDistributions p then [0, 1, 2] else [0, 1]))"

section \<open>The alerter (AppAlert.tsx)\<close>

text \<open>
  What one can observe of the alerter: a prompt opens (\<open>setState\<close> with \<open>isOpen: true\<close>,
  for the call that created the Deferred of that number), and the promise of a Deferred
  is resolved (\<open>defer.resolve(res)\<close>).
\<close>

datatype alert_event = Opened nat string | Resolved nat bool

text \<open>
  The component. A \<open>Deferred\<close> is a promise together with the function that resolves
  it. \<open>inFlight\<close> is the field \<open>defer\<close>: the number of the Deferred in flight, or \<open>None\<close>
  for \<open>null\<close>; \<open>nextDeferred\<close> numbers the Deferreds as \<open>new Deferred()\<close> creates them.
  \<open>waiting\<close> holds the calls of \<open>show\<close> that are suspended at
  \<open>await this.defer.promise\<close>, each with the Deferred it awaits and its arguments, in the
  order in which they were suspended. \<open>alertProps\<close> is the rest of the state, the options
  spread into it.
\<close>

record alerter =
  message :: string
  alertProps :: "string \<Rightarrow> string option"
  isOpen :: bool
  inFlight :: "nat option"
  nextDeferred :: nat
  waiting :: "(nat \<times> string \<times> (string \<Rightarrow> string option)) list"
  trace :: "alert_event list"

definition Alerter :: alerter where
  "Alerter =
     \<lparr>message = [], alertProps = Map.empty, isOpen = False, inFlight = None,
      nextDeferred = 0, waiting = [], trace = []\<rparr>"

text \<open>
  \<open>show\<close>, up to its first suspension: either the prompt opens and the promise of the
  new Deferred is returned, or the call is suspended on the Deferred in flight.
\<close>

definition show_alert :: "string \<Rightarrow> (string \<Rightarrow> string option) \<Rightarrow> alerter \<Rightarrow> alerter" where
  "show_alert msg options a =
     (case inFlight a of
        None \<Rightarrow>
          a\<lparr>inFlight := Some (nextDeferred a),
            nextDeferred := Suc (nextDeferred a),
            message := msg,
            alertProps := alertProps a ++ options,
            isOpen := True,
            trace := trace a @ [Opened (nextDeferred a) msg]\<rparr>
      | Some d \<Rightarrow> a\<lparr>waiting := waiting a @ [(d, msg, options)]\<rparr>)"



text \<open>
  The two things that happen to the alerter: a caller presents a message, or the user
  answers the open prompt (\<open>onClose\<close>, then the suspended calls go on before anything
  else runs).
\<close>

datatype alert_action = Present string "string \<Rightarrow> string option" | Answer bool





definition presented :: "alert_action list \<Rightarrow> string list" where
  "presented xs = concat (map (\<lambda>x. case x of Present msg _ \<Rightarrow> [msg] | Answer _ \<Rightarrow> []) xs)"

definition opened :: "alert_event list \<Rightarrow> string list" where
  "opened es = concat (map (\<lambda>ev. case ev of Opened _ msg \<Rightarrow> [msg] | Resolved _ _ \<Rightarrow> []) es)"

section \<open>Opening a favorite (LeftPanel.tsx)\<close>

subsection \<open>The window state the panel talks to\<close>

text \<open>
  Modelled from the spec: the window state (\<open>appState\<close>, \<open>winState\<close>, \<open>viewState\<close> and the
  cache of a view) is not part of the sources at hand. The spec gives its interface
  (the View Host): one or two panes, each with a visible path and a readiness status,
  a split flag, the active pane's cache (or none), the inactive pane, the activation of
  a pane by its id, and a navigation that returns a promise which may reject with a
  failure. \<open>navigations\<close> records the navigations asked of the panes, in order.
\<close>

record cache =
  cpath :: string
  status :: string

record viewState =
  viewId :: nat
  isActive :: bool
  visibleCache :: cache

record winState =
  splitView :: bool
  view0 :: viewState
  view1 :: viewState
  navigations :: "(nat \<times> string) list"

text \<open>Modelled from the spec: the active pane, if there is one.\<close>

definition getActiveView :: "winState \<Rightarrow> viewState option" where
  "getActiveView h =
     (if isActive (view0 h) then Some (view0 h)
      else if isActive (view1 h) then Some (view1 h)
      else None)"

text \<open>Modelled from the spec: \<open>getActiveCache\<close>, the active pane's cache or nothing.\<close>

definition getActiveCache :: "winState \<Rightarrow> cache option" where
  "getActiveCache h = map_option visibleCache (getActiveView h)"

text \<open>Modelled from the spec: \<open>getInactiveView\<close>, the pane that is not the active one.\<close>

definition getInactiveView :: "winState \<Rightarrow> viewState" where
  "getInactiveView h = (if isActive (view0 h) then view1 h else view0 h)"

text \<open>Modelled from the spec: \<open>setActiveView\<close>, the pane of that id becomes the active one.\<close>

definition setActiveView :: "nat \<Rightarrow> winState \<Rightarrow> winState" where
  "setActiveView i h =
     h\<lparr>view0 := (view0 h)\<lparr>isActive := (viewId (view0 h) = i)\<rparr>,
       view1 := (view1 h)\<lparr>isActive := (viewId (view1 h) = i)\<rparr>\<rparr>"

text \<open>
  Modelled from the spec: \<open>toggleSplitViewMode\<close>, the View Host's \<open>toggleSplit\<close>. It
  switches split mode; switching it on creates or reveals the second pane. Making a
  pane the active one is another operation of the View Host, \<open>setActiveView\<close>.
\<close>

definition toggleSplitViewMode :: "winState \<Rightarrow> winState" where
  "toggleSplitViewMode h = h\<lparr>splitView := \<not> splitView h\<rparr>"

text \<open>Modelled from the spec: a pane comes to show a path.\<close>

definition showPath :: "string \<Rightarrow> viewState \<Rightarrow> viewState" where
  "showPath path v = v\<lparr>visibleCache := (visibleCache v)\<lparr>cpath := path\<rparr>\<rparr>"

text \<open>
  Modelled from the spec: a navigation of the pane of id \<open>i\<close> (\<open>cd\<close> on its cache,
  \<open>addCache\<close> on the view). \<open>nav\<close> tells how the navigation of a pane to a path ends. The
  call returns a promise, settled as \<open>nav\<close> says; a fulfilled navigation shows the path.
\<close>

definition navigate ::
  "(nat \<Rightarrow> string \<Rightarrow> unit settled) \<Rightarrow> nat \<Rightarrow> string \<Rightarrow> winState \<Rightarrow> unit settled \<times> winState" where
  "navigate nav i path h =
     (let h1 = h\<lparr>navigations := navigations h @ [(i, path)]\<rparr>
      in case nav i path of
           Rejected err \<Rightarrow> (Rejected err, h1)
         | Fulfilled u \<Rightarrow>
             (Fulfilled u,
              h1\<lparr>view0 := (if viewId (view0 h1) = i then showPath path (view0 h1) else view0 h1),
                 view1 := (if viewId (view1 h1) = i then showPath path (view1 h1) else view1 h1)\<rparr>))"

subsection \<open>openFavorite, onNodeClick\<close>

text \<open>
  The application as the panel sees it: the window state, the alerter behind
  \<open>AppAlert\<close>, and the failures of the promises that were rejected with no handler
  attached.
\<close>

record world =
  win :: winState
  appAlerter :: alerter
  unhandled :: "failure list"

text \<open>How a call ends: it returns, or it throws.\<close>

datatype 'a completion = Returned 'a | Threw failure 'a

text \<open>
  A statement that calls a navigation and does nothing with the promise it gets: a
  rejection of that promise has no handler.
\<close>

definition dropPromise :: "unit settled \<times> winState \<Rightarrow> world \<Rightarrow> world" where
  "dropPromise r w =
     (case fst r of
        Fulfilled _ \<Rightarrow> w\<lparr>win := snd r\<rparr>
      | Rejected err \<Rightarrow> w\<lparr>win := snd r, unhandled := unhandled w @ [err]\<rparr>)"

text \<open>
  \<open>openFavorite\<close>. Its return type is \<open>void\<close> and it has no \<open>return\<close>: the promises of
  \<open>cd\<close> and \<open>addCache\<close> stay inside. The source reads the active cache; here the active
  view is read and its cache used.
\<close>

definition openFavorite ::
  "(nat \<Rightarrow> string \<Rightarrow> unit settled) \<Rightarrow> string \<Rightarrow> bool \<Rightarrow> world \<Rightarrow> world completion" where
  "openFavorite nav path sameView w =
     (if sameView then
        (case getActiveView (win w) of
           None \<Rightarrow> Returned w
         | Some activeView \<Rightarrow>
             (if status (visibleCache activeView) = ''ok''
              then Returned (dropPromise (navigate nav (viewId activeView) path (win w)) w)
              else Returned w))
      else
        (let winState = win w;
             viewState = getInactiveView winState;
             winState1 = (if \<not> splitView winState then toggleSplitViewMode winState
                          else setActiveView (viewId viewState) winState)
         in if cpath (visibleCache viewState) \<noteq> path
            then Returned (dropPromise (navigate nav (viewId viewState) path winState1) w)
            else Returned (w\<lparr>win := winState1\<rparr>)))"

text \<open>\<open>AppAlert.show\<close> hands the message to the one alerter of the application.\<close>

definition AppAlert_show :: "string \<Rightarrow> (string \<Rightarrow> string option) \<Rightarrow> world \<Rightarrow> world" where
  "AppAlert_show msg props w = w\<lparr>appAlerter := show_alert msg props (appAlerter w)\<rparr>"

record mouse_event =
  altKey :: bool
  ctrlKey :: bool

text \<open>
  \<open>onNodeClick\<close>: \<open>await\<close> on the value of \<open>openFavorite\<close>, which is not a promise, goes
  on at once; \<open>catch\<close> gets what \<open>openFavorite\<close> throws.
\<close>

definition onNodeClick ::
  "env \<Rightarrow> (nat \<Rightarrow> string \<Rightarrow> unit settled) \<Rightarrow> tree_node \<Rightarrow> mouse_event \<Rightarrow> world \<Rightarrow> world" where
  "onNodeClick e nav node ev w =
     (case openFavorite nav (nodeData node) (\<not> (if isMac e then altKey ev else ctrlKey ev)) w of
        Returned w' \<Rightarrow> w'
      | Threw err w' \<Rightarrow>
          AppAlert_show (fmessage err @ '' ('' @ js_string (fcode err) @ '')'')
            [''intent'' \<mapsto> ''danger''] w')"

section \<open>The selection, in the words of the spec\<close>

text \<open>
  The spec's \<open>applySelection\<close>: \<open>selected\<close> is cleared on every node of every group, and
  the first node whose path is the given one, the groups taken in their order, is marked.
  \<open>markFirst\<close> does it for one sequence of nodes, \<open>applySelection\<close> for the groups.
\<close>

definition clr :: "tree_node \<Rightarrow> tree_node" where
  "clr n = n\<lparr>isSelected := Some False\<rparr>"

fun markFirst :: "string \<Rightarrow> tree_node list \<Rightarrow> tree_node list" where
  "markFirst path [] = []"
| "markFirst path (n # ns) =
     (if nodeData n = path then n\<lparr>isSelected := Some True\<rparr> # map clr ns
      else clr n # markFirst path ns)"

fun applySelection :: "string \<Rightarrow> tree_group list \<Rightarrow> tree_group list" where
  "applySelection path [] = []"
| "applySelection path (g # gs) =
     (if path \<in> nodeData ` set (childNodes g)
      then g\<lparr>childNodes := markFirst path (childNodes g)\<rparr> # clearSelection gs
      else g\<lparr>childNodes := map clr (childNodes g)\<rparr> # applySelection path gs)"

definition selected :: "tree_node \<Rightarrow> bool" where
  "selected n = (isSelected n = Some True)"

text \<open>All the child nodes of the tree, group after group.\<close>

definition allChildNodes :: "panel \<Rightarrow> tree_node list" where
  "allChildNodes p = concat (map childNodes (nodes p))"

section \<open>Sample data\<close>

text \<open>
  An environment in which a translation key with no entry comes back as it is, and a
  store with one shortcut, one place and one distribution; the place and the
  distribution have the same path.
\<close>

definition sampleEnv :: env where
  "sampleEnv =
     \<lparr>t = (\<lambda>k. k), USERNAME = ''u'',
      Icons = [''HOME_DIR'' \<mapsto> ''home''], isMac = False\<rparr>"

definition sampleFavorites :: favorites where
  "sampleFavorites =
     \<lparr>shortcuts = [\<lparr>flabel = Some ''HOME_DIR'', fpath = ''/home/u'', ficon = None\<rparr>],
      places = [\<lparr>flabel = Some ''C'', fpath = ''/mnt/c'', ficon = Some ''folder''\<rparr>],
      distributions = Some [\<lparr>flabel = Some ''Ubuntu'', fpath = ''/mnt/c'', ficon = Some ''linux''\<rparr>]\<rparr>"

text \<open>A place of which the store gives the path only.\<close>

definition bareFavorites :: favorites where
  "bareFavorites =
     \<lparr>shortcuts = [\<lparr>flabel = None, fpath = ''/home/u'', ficon = None\<rparr>],
      places = [\<lparr>flabel = None, fpath = ''/data'', ficon = None\<rparr>],
      distributions = None\<rparr>"

text \<open>The panel once the probe has answered yes and the tree has been built from the sample store.\<close>

definition samplePanel :: panel where
  "samplePanel =
     \<lparr>nodes =
        [\<lparr>gid = 0, hasCaret = True, isExpanded = True, glabel = ''FAVORITES_PANEL.SHORTCUTS'',
          childNodes = map (shortcutNode sampleEnv) (shortcuts sampleFavorites)\<rparr>,
         \<lparr>gid = 1, hasCaret = True, isExpanded = True, glabel = ''FAVORITES_PANEL.PLACES'',
          childNodes = map placeNode (places sampleFavorites)\<rparr>,
         \<lparr>gid = 2, hasCaret = True, isExpanded = True, glabel = ''FAVORITES_PANEL.LINUX'',
          childNodes = map distribNode
            [\<lparr>flabel = Some ''Ubuntu'', fpath = ''/mnt/c'', ficon = Some ''linux''\<rparr>]\<rparr>],
      showDistributions = True,
      hide = False,
      favoritesState = sampleFavorites\<rparr>"

text \<open>The paths of the child nodes of a tree, group by group (to read a result).\<close>

definition nodePaths :: "panel \<Rightarrow> string list list" where
  "nodePaths p = map (\<lambda>g. map nodeData (childNodes g)) (nodes p)"

text \<open>Likewise their identities, their selection flags, and what they show: the content
  of the label and the icon.\<close>

definition nodeIds :: "panel \<Rightarrow> string list list" where
  "nodeIds p = map (\<lambda>g. map nid (childNodes g)) (nodes p)"

definition nodeFlags :: "panel \<Rightarrow> bool option list list" where
  "nodeFlags p = map (\<lambda>g. map isSelected (childNodes g)) (nodes p)"

definition nodeFaces :: "panel \<Rightarrow> (string option \<times> string option) list list" where
  "nodeFaces p = map (\<lambda>g. map (\<lambda>n. (content (nlabel n), nicon n)) (childNodes g)) (nodes p)"

text \<open>
  A window that is not split, its first pane active, both panes ready and showing the
  home directory; the application with that window, the alerter as created and no
  unhandled rejection.
\<close>

definition sampleWin :: winState where
  "sampleWin =
     \<lparr>splitView = False,
      view0 = \<lparr>viewId = 0, isActive = True,
               visibleCache = \<lparr>cpath = ''/home/u'', status = ''ok''\<rparr>\<rparr>,
      view1 = \<lparr>viewId = 1, isActive = False,
               visibleCache = \<lparr>cpath = ''/home/u'', status = ''ok''\<rparr>\<rparr>,
      navigations = []\<rparr>"

definition sampleWorld :: world where
  "sampleWorld = \<lparr>win = sampleWin, appAlerter = Alerter, unhandled = []\<rparr>"


text \<open>The first application again, with the active pane still loading.\<close>

definition busyWorld :: world where
  "busyWorld =
     sampleWorld\<lparr>win := sampleWin\<lparr>view0 :=
       \<lparr>viewId = 0, isActive = True,
        visibleCache = \<lparr>cpath = ''/home/u'', status = ''busy''\<rparr>\<rparr>\<rparr>\<rparr>"

text \<open>A file system on which every navigation is rejected, and one on which none is.\<close>

definition denied :: failure where
  "denied = \<lparr>fmessage = ''permission denied'', fcode = Some ''EACCES''\<rparr>"

definition refuses :: "nat \<Rightarrow> string \<Rightarrow> unit settled" where
  "refuses i path = Rejected denied"

definition accepts :: "nat \<Rightarrow> string \<Rightarrow> unit settled" where
  "accepts i path = Fulfilled ()"

text \<open>The node of a place, a plain click and a click with the control key.\<close>

definition sampleNode :: tree_node where
  "sampleNode = placeNode \<lparr>flabel = Some ''data'', fpath = ''/data'', ficon = Some ''folder''\<rparr>"

definition plainClick :: mouse_event where
  "plainClick = \<lparr>altKey = False, ctrlKey = False\<rparr>"


section \<open>What the alerter keeps true\<close>


section \<open>Facts about the helpers\<close>

lemma bind_err_simps [simp]:
  "bind_err (Inr v) f = f v"
  "bind_err (Inl err) f = Inl err"
  by (simp_all add: bind_err_def)

lemma js_index_simps [simp]:
  "js_index (x # xs) 0 = Some x"
  "js_index (x0 # x # xs) (Suc 0) = Some x"
  "js_index [x0, x1] 2 = None"
  "js_index (x0 # x1 # x # xs) 2 = Some x"
  "js_index [] i = None"
  by (simp_all add: js_index_def)

lemma third_simps [simp]:
  "[a, b, c] ! 2 = c"
  "[a, b, c][2 := x] = [a, b, x]"
  by (simp_all add: numeral_2_eq_2)

lemma setChildNodes_simps [simp]:
  "setChildNodes 0 cs (g # gs) = Inr (g\<lparr>childNodes := cs\<rparr> # gs)"
  "setChildNodes (Suc 0) cs (g0 # g # gs) = Inr (g0 # g\<lparr>childNodes := cs\<rparr> # gs)"
  "setChildNodes 2 cs [g0, g1] = Inl TypeError"
  "setChildNodes 2 cs [g0, g1, g] = Inr [g0, g1, g\<lparr>childNodes := cs\<rparr>]"
  by (simp_all add: setChildNodes_def)

lemma setLabel_simps [simp]:
  "setLabel 0 l (g # gs) = Inr (g\<lparr>glabel := l\<rparr> # gs)"
  "setLabel (Suc 0) l (g0 # g # gs) = Inr (g0 # g\<lparr>glabel := l\<rparr> # gs)"
  "setLabel 2 l [g0, g1, g] = Inr [g0, g1, g\<lparr>glabel := l\<rparr>]"
  by (simp_all add: setLabel_def)

lemma childNodesAt_simps [simp]:
  "childNodesAt (g # gs) 0 = Inr (childNodes g)"
  "childNodesAt (g0 # g # gs) (Suc 0) = Inr (childNodes g)"
  "childNodesAt (g0 # g1 # g # gs) 2 = Inr (childNodes g)"
  by (simp_all add: childNodesAt_def)

lemma clr_simps [simp]:
  "nodeData (clr n) = nodeData n"
  "clr (clr n) = clr n"
  "clr (n\<lparr>isSelected := b\<rparr>) = clr n"
  "(clr n)\<lparr>isSelected := b\<rparr> = n\<lparr>isSelected := b\<rparr>"
  by (simp_all add: clr_def)

lemma clr_comp [simp]: "clr \<circ> clr = clr"
  by (rule ext) simp

lemma image_nodeData_clr [simp]: "nodeData ` clr ` A = nodeData ` A"
  by (simp add: image_image)

lemma clearSelection_simps [simp]:
  "clearSelection [] = []"
  "clearSelection (g # gs) = g\<lparr>childNodes := map clr (childNodes g)\<rparr> # clearSelection gs"
  by (simp_all add: clearSelection_def clr_def)

lemma nodePaths_alt: "nodePaths p = map (map nodeData) (map childNodes (nodes p))"
  by (simp add: nodePaths_def)

subsection \<open>find and the first match\<close>

lemma find_index_None: "find_index P xs = None \<longleftrightarrow> (\<forall>x \<in> set xs. \<not> P x)"
  by (induction xs) auto

lemma find_index_Some_mem:
  "find_index P xs = Some i \<Longrightarrow> \<exists>x \<in> set xs. P x"
  using find_index_None [of P xs] by auto

lemma find_index_clr:
  "find_index (\<lambda>n. nodeData n = path) (map clr xs) = find_index (\<lambda>n. nodeData n = path) xs"
  by (induction xs) auto

lemma markFirst_none:
  "path \<notin> nodeData ` set xs \<Longrightarrow> markFirst path xs = map clr xs"
  by (induction xs) auto

lemma markFirst_found:
  "find_index (\<lambda>n. nodeData n = path) xs = Some i \<Longrightarrow>
   (map clr xs)[i := (map clr xs ! i)\<lparr>isSelected := Some True\<rparr>] = markFirst path xs"
proof (induction xs arbitrary: i)
  case Nil
  then show ?case by simp
next
  case (Cons x xs)
  show ?case
  proof (cases "nodeData x = path")
    case True
    with Cons.prems show ?thesis by simp
  next
    case False
    with Cons.prems obtain j
      where "find_index (\<lambda>n. nodeData n = path) xs = Some j" "i = Suc j"
      by auto
    with Cons.IH False show ?thesis by simp
  qed
qed

lemma nodeData_markFirst [simp]: "map nodeData (markFirst path xs) = map nodeData xs"
  by (induction xs) simp_all

lemma set_nodeData_markFirst [simp]: "nodeData ` set (markFirst path xs) = nodeData ` set xs"
  using nodeData_markFirst [of path xs] by (metis set_map)

lemma clr_markFirst [simp]: "map clr (markFirst path xs) = map clr xs"
  by (induction xs) simp_all

lemma markFirst_clr [simp]: "markFirst path (map clr xs) = markFirst path xs"
  by (induction xs) simp_all

lemma markFirst_idem [simp]: "markFirst path (markFirst path xs) = markFirst path xs"
  by (induction xs) simp_all

lemma markFirst_append:
  "markFirst path (xs @ ys) =
     (if path \<in> nodeData ` set xs then markFirst path xs @ map clr ys
      else map clr xs @ markFirst path ys)"
  by (induction xs) auto

lemma no_selected_clr [simp]: "filter selected (map clr xs) = []"
  by (induction xs) (simp_all add: clr_def selected_def)

lemma selected_markFirst:
  "length (filter selected (markFirst path xs)) = (if path \<in> nodeData ` set xs then 1 else 0)"
  by (induction xs) (auto simp: selected_def clr_def)

subsection \<open>applySelection\<close>

lemma clearSelection_idem [simp]: "clearSelection (clearSelection gs) = clearSelection gs"
  by (induction gs) simp_all

lemma clearSelection_applySelection [simp]:
  "clearSelection (applySelection path gs) = clearSelection gs"
  by (induction gs) simp_all

lemma applySelection_idem: "applySelection path (applySelection path gs) = applySelection path gs"
  by (induction gs) (simp_all add: markFirst_none)

lemma gid_clearSelection [simp]: "map gid (clearSelection gs) = map gid gs"
  by (induction gs) simp_all

lemma gid_applySelection [simp]: "map gid (applySelection path gs) = map gid gs"
  by (induction gs) simp_all

lemma concat_clearSelection:
  "concat (map childNodes (clearSelection gs)) = map clr (concat (map childNodes gs))"
  by (induction gs) simp_all

lemma concat_applySelection:
  "concat (map childNodes (applySelection path gs)) = markFirst path (concat (map childNodes gs))"
  by (induction gs) (simp_all add: markFirst_append concat_clearSelection markFirst_none)

subsection \<open>The shape of the tree\<close>

lemma wellFormed_cases:
  "wellFormed p \<Longrightarrow>
     (\<not> showDistributions p \<and> (\<exists>g0 g1. nodes p = [g0, g1] \<and> gid g0 = 0 \<and> gid g1 = 1)) \<or>
     (showDistributions p \<and>
        (\<exists>g0 g1 g2. nodes p = [g0, g1, g2] \<and> gid g0 = 0 \<and> gid g1 = 1 \<and> gid g2 = 2))"
  by (cases "showDistributions p") (auto simp: wellFormed_def map_eq_Cons_conv)

lemma wellFormed_constructor:
  "wellFormed (constructor e h favs)" "\<not> showDistributions (constructor e h favs)"
  by (simp_all add: wellFormed_def constructor_def)

lemma wellFormed_checkForWSL:
  assumes "wellFormed p" "\<not> showDistributions p"
  shows "wellFormed (checkForWSL e r p)"
    and "showDistributions (checkForWSL e r p) = (r = Fulfilled True)"
  using assms by (auto simp: wellFormed_def checkForWSL_def split: settled.splits)

subsection \<open>buildNodes on a tree of two and of three groups\<close>

lemma buildNodes_two:
  "nodes p = [g0, g1] \<Longrightarrow>
   buildNodes e favs p =
     (if showDistributions p \<and> distributions favs \<noteq> None then Inl TypeError
      else Inr (p\<lparr>nodes :=
        [g0\<lparr>childNodes := map (shortcutNode e) (shortcuts favs),
            glabel := t e ''FAVORITES_PANEL.SHORTCUTS''\<rparr>,
         g1\<lparr>childNodes := map placeNode (places favs),
            glabel := t e ''FAVORITES_PANEL.PLACES''\<rparr>]\<rparr>))"
  by (cases "distributions favs") (simp_all add: buildNodes_def)

lemma buildNodes_three:
  "nodes p = [g0, g1, g2] \<Longrightarrow>
   buildNodes e favs p =
     Inr (p\<lparr>nodes :=
        [g0\<lparr>childNodes := map (shortcutNode e) (shortcuts favs),
            glabel := t e ''FAVORITES_PANEL.SHORTCUTS''\<rparr>,
         g1\<lparr>childNodes := map placeNode (places favs),
            glabel := t e ''FAVORITES_PANEL.PLACES''\<rparr>,
         g2\<lparr>childNodes :=
              (case (if showDistributions p then distributions favs else None) of
                 Some ds \<Rightarrow> map distribNode ds | None \<Rightarrow> childNodes g2),
            glabel := t e ''FAVORITES_PANEL.LINUX''\<rparr>]\<rparr>)"
  by (cases "distributions favs") (simp_all add: buildNodes_def)

lemma buildNodes_wellFormed:
  assumes "wellFormed p"
  shows "\<exists>p'. buildNodes e favs p = Inr p' \<and> wellFormed p' \<and>
           showDistributions p' = showDistributions p \<and> hide p' = hide p \<and>
           favoritesState p' = favoritesState p \<and>
           map childNodes (nodes p') =
             [map (shortcutNode e) (shortcuts favs), map placeNode (places favs)] @
             (if showDistributions p
              then [case distributions favs of
                      Some ds \<Rightarrow> map distribNode ds
                    | None \<Rightarrow> childNodes (nodes p ! 2)]
              else []) \<and>
           map glabel (nodes p') =
             [t e ''FAVORITES_PANEL.SHORTCUTS'', t e ''FAVORITES_PANEL.PLACES''] @
             (if showDistributions p then [t e ''FAVORITES_PANEL.LINUX''] else [])"
proof (cases "showDistributions p")
  case True
  with wellFormed_cases [OF assms] obtain g0 g1 g2 where
    n: "nodes p = [g0, g1, g2]" and g: "gid g0 = 0" "gid g1 = 1" "gid g2 = 2"
    by blast
  show ?thesis
    using True g n by (simp add: buildNodes_three [OF n] wellFormed_def split: option.split)
next
  case False
  with wellFormed_cases [OF assms] obtain g0 g1 where
    n: "nodes p = [g0, g1]" and g: "gid g0 = 0" "gid g1 = 1"
    by blast
  show ?thesis
    using False g by (simp add: buildNodes_two [OF n] wellFormed_def)
qed

subsection \<open>setActiveNode is applySelection\<close>

lemma setActiveNode_two:
  assumes n: "nodes p = [g0, g1]" and d: "\<not> showDistributions p"
  shows "setActiveNode path p = Inr (p\<lparr>nodes := applySelection path (nodes p)\<rparr>)"
proof (cases "find_index (\<lambda>n. nodeData n = path) (childNodes g0)")
  case (Some i)
  then have m: "path \<in> nodeData ` set (childNodes g0)"
    using find_index_Some_mem [OF Some] by auto
  show ?thesis
    using n d Some m markFirst_found [OF Some]
    by (simp add: setActiveNode_def getNodeFromPath_def Let_def find_index_clr markSelected_def)
next
  case None
  then have m0: "path \<notin> nodeData ` set (childNodes g0)"
    by (auto simp: find_index_None)
  show ?thesis
  proof (cases "find_index (\<lambda>n. nodeData n = path) (childNodes g1)")
    case (Some i)
    then have m: "path \<in> nodeData ` set (childNodes g1)"
      using find_index_Some_mem [OF Some] by auto
    show ?thesis
      using n d None m0 Some m markFirst_found [OF Some]
      by (simp add: setActiveNode_def getNodeFromPath_def Let_def find_index_clr markSelected_def)
  next
    case None1: None
    then have m1: "path \<notin> nodeData ` set (childNodes g1)"
      by (auto simp: find_index_None)
    show ?thesis
      using n d None m0 None1 m1
      by (simp add: setActiveNode_def getNodeFromPath_def Let_def find_index_clr markSelected_def)
  qed
qed

lemma setActiveNode_three:
  assumes n: "nodes p = [g0, g1, g2]" and d: "showDistributions p"
  shows "setActiveNode path p = Inr (p\<lparr>nodes := applySelection path (nodes p)\<rparr>)"
proof (cases "find_index (\<lambda>n. nodeData n = path) (childNodes g0)")
  case (Some i)
  then have m: "path \<in> nodeData ` set (childNodes g0)"
    using find_index_Some_mem [OF Some] by auto
  show ?thesis
    using n d Some m markFirst_found [OF Some]
    by (simp add: setActiveNode_def getNodeFromPath_def Let_def find_index_clr markSelected_def)
next
  case None
  then have m0: "path \<notin> nodeData ` set (childNodes g0)"
    by (auto simp: find_index_None)
  show ?thesis
  proof (cases "find_index (\<lambda>n. nodeData n = path) (childNodes g1)")
    case (Some i)
    then have m: "path \<in> nodeData ` set (childNodes g1)"
      using find_index_Some_mem [OF Some] by auto
    show ?thesis
      using n d None m0 Some m markFirst_found [OF Some]
      by (simp add: setActiveNode_def getNodeFromPath_def Let_def find_index_clr markSelected_def)
  next
    case None1: None
    then have m1: "path \<notin> nodeData ` set (childNodes g1)"
      by (auto simp: find_index_None)
    show ?thesis
    proof (cases "find_index (\<lambda>n. nodeData n = path) (childNodes g2)")
      case (Some i)
      then have m: "path \<in> nodeData ` set (childNodes g2)"
        using find_index_Some_mem [OF Some] by auto
      show ?thesis
        using n d None m0 None1 m1 Some m markFirst_found [OF Some]
        by (simp add: setActiveNode_def getNodeFromPath_def Let_def find_index_clr
            markSelected_def)
    next
      case None2: None
      then have m2: "path \<notin> nodeData ` set (childNodes g2)"
        by (auto simp: find_index_None)
      show ?thesis
        using n d None m0 None1 m1 None2 m2
        by (simp add: setActiveNode_def getNodeFromPath_def Let_def find_index_clr
            markSelected_def)
    qed
  qed
qed

lemma setActiveNode_wellFormed:
  assumes "wellFormed p"
  shows "setActiveNode path p = Inr (p\<lparr>nodes := applySelection path (nodes p)\<rparr>)"
  using wellFormed_cases [OF assms] setActiveNode_two setActiveNode_three by blast

subsection \<open>Every handler keeps the shape\<close>

lemma gid_toggle:
  "map gid (xs[i := (xs ! i)\<lparr>isExpanded := b\<rparr>]) = map gid xs"
  by (induction xs arbitrary: i) (auto split: nat.splits)

lemma wellFormed_onNodeToggle:
  "wellFormed p \<Longrightarrow>
   wellFormed (onNodeToggle i p) \<and> showDistributions (onNodeToggle i p) = showDistributions p"
  by (cases "i < length (nodes p)")
     (simp_all add: onNodeToggle_def wellFormed_def js_index_def gid_toggle)

lemma step_wellFormed:
  assumes "wellFormed p"
  shows "\<exists>p'. step e ev p = Inr p' \<and> wellFormed p' \<and>
           showDistributions p' = showDistributions p"
proof (cases ev)
  case (ShortcutsChanged xs)
  with assms show ?thesis by (simp add: wellFormed_def)
next
  case (PlacesChanged xs)
  let ?q = "p\<lparr>favoritesState := (favoritesState p)\<lparr>places := xs\<rparr>\<rparr>"
  have q: "wellFormed ?q" using assms by (simp add: wellFormed_def)
  from buildNodes_wellFormed [OF q, of e "favoritesState ?q"] q PlacesChanged
  show ?thesis by (auto simp: onPlacesUpdated_def)
next
  case (DistributionsChanged xs)
  let ?q = "p\<lparr>favoritesState := (favoritesState p)\<lparr>distributions := xs\<rparr>\<rparr>"
  have q: "wellFormed ?q" using assms by (simp add: wellFormed_def)
  from buildNodes_wellFormed [OF q, of e "favoritesState ?q"] q DistributionsChanged
  show ?thesis by (auto simp: onDistributionsUpdated_def)
next
  case LanguageChanged
  from buildNodes_wellFormed [OF assms, of e "favoritesState p"] LanguageChanged
  show ?thesis by (auto simp: onLanguageChanged_def)
next
  case (HideChanged h)
  with assms show ?thesis by (simp add: wellFormed_def)
next
  case (Render path)
  with assms show ?thesis
    by (simp add: setActiveNode_wellFormed wellFormed_def)
next
  case (NodeToggle i)
  with wellFormed_onNodeToggle [OF assms, of i] show ?thesis by simp
qed

lemma run_wellFormed:
  "wellFormed p \<Longrightarrow>
   \<exists>p'. run e evs p = Inr p' \<and> wellFormed p' \<and> showDistributions p' = showDistributions p"
proof (induction evs arbitrary: p)
  case Nil
  then show ?case by simp
next
  case (Cons ev evs)
  from step_wellFormed [OF Cons.prems, of e ev] obtain q where
    q: "step e ev p = Inr q" "wellFormed q" "showDistributions q = showDistributions p"
    by blast
  from Cons.IH [OF q(2)] q show ?case by auto
qed

section \<open>The selection tracker\<close>

text \<open>
  C5. On a tree of the shape the panel keeps, \<open>setActiveNode\<close> raises nothing and is the
  spec's \<open>applySelection\<close>: all the child nodes of the tree, group after group, have
  \<open>isSelected\<close> cleared, except the first one whose path is the given path, which is
  selected. So one node is selected if some node has that path and none otherwise, and
  a second call with the same path changes nothing.
\<close>

theorem setActiveNode_applySelection:
  assumes "wellFormed p"
  shows "setActiveNode path p = Inr (p\<lparr>nodes := applySelection path (nodes p)\<rparr>) \<and>
         allChildNodes (p\<lparr>nodes := applySelection path (nodes p)\<rparr>) =
           markFirst path (allChildNodes p) \<and>
         length (filter selected (allChildNodes (p\<lparr>nodes := applySelection path (nodes p)\<rparr>))) =
           (if path \<in> nodeData ` set (allChildNodes p) then 1 else 0) \<and>
         setActiveNode path (p\<lparr>nodes := applySelection path (nodes p)\<rparr>) =
           Inr (p\<lparr>nodes := applySelection path (nodes p)\<rparr>)"
proof -
  let ?q = "p\<lparr>nodes := applySelection path (nodes p)\<rparr>"
  have first: "setActiveNode path p = Inr ?q"
    by (rule setActiveNode_wellFormed [OF assms])
  have flat: "allChildNodes ?q = markFirst path (allChildNodes p)"
    by (simp add: allChildNodes_def concat_applySelection)
  have count: "length (filter selected (allChildNodes ?q)) =
      (if path \<in> nodeData ` set (allChildNodes p) then 1 else 0)"
    unfolding flat by (rule selected_markFirst)
  have "wellFormed ?q"
    using assms by (simp add: wellFormed_def)
  then have "setActiveNode path ?q = Inr (?q\<lparr>nodes := applySelection path (nodes ?q)\<rparr>)"
    by (rule setActiveNode_wellFormed)
  then have again: "setActiveNode path ?q = Inr ?q"
    by (simp add: applySelection_idem)
  from first flat count again show ?thesis by blast
qed

theorem setActiveNode_applySelection_witness:
  "wellFormed samplePanel \<and>
   map_sum id nodeFlags (setActiveNode ''/mnt/c'' samplePanel) =
     Inr [[Some False], [Some True], [Some False]]"
proof -
  have w: "wellFormed samplePanel"
    by (simp add: wellFormed_def samplePanel_def)
  from setActiveNode_applySelection [OF w, of "''/mnt/c''"] w show ?thesis
    by (simp add: samplePanel_def sampleFavorites_def sampleEnv_def nodeFlags_def
        shortcutNode_def placeNode_def distribNode_def clr_def)
qed

section \<open>The extra group and the probe\<close>

text \<open>
  C3, as the code has it. Whatever happens before and after the probe, the life of a
  panel raises nothing, and at its end the tree has the extra group, after the two
  fixed groups, exactly if the probe resolved to true; the flag says the same. When the
  probe resolves to true, \<open>checkForWSL\<close> sets the flag and appends the group, expanded and
  with no child node; it builds nothing.
\<close>

theorem extra_group_follows_probe:
  "(\<exists>p. lifetime e h favs probe before after = Inr p \<and>
        map gid (nodes p) = (if probe = Some (Fulfilled True) then [0, 1, 2] else [0, 1]) \<and>
        showDistributions p = (probe = Some (Fulfilled True))) \<and>
   checkForWSL e (Fulfilled True) q =
     q\<lparr>showDistributions := True,
       nodes := nodes q @
         [\<lparr>gid = 2, hasCaret = True, isExpanded = True,
           glabel = t e ''FAVORITES_PANEL.LINUX'', childNodes = []\<rparr>]\<rparr>"
proof -
  from run_wellFormed [OF wellFormed_constructor(1), of e before e h favs]
  obtain p1 where p1: "run e before (constructor e h favs) = Inr p1" "wellFormed p1"
    "\<not> showDistributions p1"
    using wellFormed_constructor(2) by auto
  define p2 where "p2 = (case probe of None \<Rightarrow> p1 | Some r \<Rightarrow> checkForWSL e r p1)"
  have p2: "wellFormed p2" "showDistributions p2 = (probe = Some (Fulfilled True))"
    using p1 wellFormed_checkForWSL [OF p1(2) p1(3), of e]
    by (auto simp: p2_def split: option.splits)
  from run_wellFormed [OF p2(1), of e after] obtain p3 where
    p3: "run e after p2 = Inr p3" "wellFormed p3" "showDistributions p3 = showDistributions p2"
    by blast
  have "lifetime e h favs probe before after = Inr p3"
    using p1(1) p3(1) by (simp add: lifetime_def p2_def)
  moreover have "map gid (nodes p3) = (if probe = Some (Fulfilled True) then [0, 1, 2] else [0, 1])"
    using p3(2) p3(3) p2(2) by (simp add: wellFormed_def)
  moreover have "showDistributions p3 = (probe = Some (Fulfilled True))"
    using p3(3) p2(2) by simp
  moreover have "checkForWSL e (Fulfilled True) q =
     q\<lparr>showDistributions := True,
       nodes := nodes q @
         [\<lparr>gid = 2, hasCaret = True, isExpanded = True,
           glabel = t e ''FAVORITES_PANEL.LINUX'', childNodes = []\<rparr>]\<rparr>"
    by (simp add: checkForWSL_def)
  ultimately show ?thesis by blast
qed

text \<open>
  The claim as written fails where it has the probe rebuild the group: the store holds a
  distribution, the probe resolves to true, and the group that is appended is empty.
\<close>

theorem probe_builds_nothing:
  "distributions sampleFavorites \<noteq> Some [] \<and>
   nodePaths (checkForWSL sampleEnv (Fulfilled True) (constructor sampleEnv False sampleFavorites))
     = [[], [], []] \<and>
   map_sum id nodePaths
     (buildNodes sampleEnv sampleFavorites
        (checkForWSL sampleEnv (Fulfilled True) (constructor sampleEnv False sampleFavorites)))
     = Inr [[''/home/u''], [''/mnt/c''], [''/mnt/c'']]"
  by (simp add: nodePaths_def checkForWSL_def constructor_def sampleFavorites_def buildNodes_def
      shortcutNode_def placeNode_def distribNode_def)

section \<open>Rebuilds\<close>

text \<open>
  C4, as the code has it. Three things rebuild the tree: a change of the places, a change
  of the distributions (both only while the panel is not hidden), a change of the
  language. A change of the shortcuts runs no handler and leaves the tree as it is.
  Every rebuild is the same \<open>buildNodes\<close>: on a tree of the shape the panel keeps it
  raises nothing, gives the shortcuts group and the places group the nodes of the
  store's present shortcuts and places, gives the extra group (if the probe was true)
  the nodes of the store's distributions if the store has that collection, and sets the
  label of every group.
\<close>

theorem rebuild_rebuilds_every_group:
  assumes "wellFormed p"
  shows "onPlacesUpdated e p = (if hide p then Inr p else buildNodes e (favoritesState p) p) \<and>
         onDistributionsUpdated e p =
           (if hide p then Inr p else buildNodes e (favoritesState p) p) \<and>
         onLanguageChanged e p = buildNodes e (favoritesState p) p \<and>
         map_sum id nodes (step e (ShortcutsChanged xs) p) = Inr (nodes p) \<and>
         (\<exists>p'. buildNodes e favs p = Inr p' \<and>
            map childNodes (nodes p') =
              [map (shortcutNode e) (shortcuts favs), map placeNode (places favs)] @
              (if showDistributions p
               then [case distributions favs of
                       Some ds \<Rightarrow> map distribNode ds
                     | None \<Rightarrow> childNodes (nodes p ! 2)]
               else []) \<and>
            map glabel (nodes p') =
              [t e ''FAVORITES_PANEL.SHORTCUTS'', t e ''FAVORITES_PANEL.PLACES''] @
              (if showDistributions p then [t e ''FAVORITES_PANEL.LINUX''] else []))"
proof -
  have a: "onPlacesUpdated e p = (if hide p then Inr p else buildNodes e (favoritesState p) p)"
    by (simp add: onPlacesUpdated_def)
  have b: "onDistributionsUpdated e p =
      (if hide p then Inr p else buildNodes e (favoritesState p) p)"
    by (simp add: onDistributionsUpdated_def)
  have c: "onLanguageChanged e p = buildNodes e (favoritesState p) p"
    by (simp add: onLanguageChanged_def)
  have d: "map_sum id nodes (step e (ShortcutsChanged xs) p) = Inr (nodes p)"
    by simp
  from buildNodes_wellFormed [OF assms, of e favs] a b c d show ?thesis
    by blast
qed

theorem rebuild_rebuilds_every_group_witness:
  "wellFormed (constructor sampleEnv False sampleFavorites) \<and>
   map_sum id nodePaths
     (onPlacesUpdated sampleEnv (constructor sampleEnv False sampleFavorites)) =
     Inr [[''/home/u''], [''/mnt/c'']]"
proof -
  have w: "wellFormed (constructor sampleEnv False sampleFavorites)"
    by (rule wellFormed_constructor)
  from rebuild_rebuilds_every_group [OF w, of sampleEnv _ sampleFavorites]
  obtain p' where
    "onPlacesUpdated sampleEnv (constructor sampleEnv False sampleFavorites) =
       (if hide (constructor sampleEnv False sampleFavorites)
        then Inr (constructor sampleEnv False sampleFavorites)
        else buildNodes sampleEnv
          (favoritesState (constructor sampleEnv False sampleFavorites))
          (constructor sampleEnv False sampleFavorites))"
    "buildNodes sampleEnv sampleFavorites (constructor sampleEnv False sampleFavorites) = Inr p'"
    "map childNodes (nodes p') =
       [map (shortcutNode sampleEnv) (shortcuts sampleFavorites),
        map placeNode (places sampleFavorites)] @
       (if showDistributions (constructor sampleEnv False sampleFavorites)
        then [case distributions sampleFavorites of
                Some ds \<Rightarrow> map distribNode ds
              | None \<Rightarrow> childNodes (nodes (constructor sampleEnv False sampleFavorites) ! 2)]
        else [])"
    by blast
  then have "map_sum id nodePaths
     (onPlacesUpdated sampleEnv (constructor sampleEnv False sampleFavorites)) =
     Inr (nodePaths p')" and "nodePaths p' = [[''/home/u''], [''/mnt/c'']]"
    by (simp_all add: constructor_def nodePaths_alt sampleFavorites_def shortcutNode_def
        placeNode_def)
  with w show ?thesis by simp
qed

text \<open>
  The claim as written fails: a change of the places, the first one after the panel was
  made, fills the shortcuts group as well.
\<close>

theorem places_change_rebuilds_shortcuts:
  "nodePaths (constructor sampleEnv False sampleFavorites) = [[], []] \<and>
   map_sum id nodePaths
     (step sampleEnv
        (PlacesChanged [\<lparr>flabel = Some ''data'', fpath = ''/data'', ficon = Some ''folder''\<rparr>])
        (constructor sampleEnv False sampleFavorites)) =
     Inr [[''/home/u''], [''/data'']]"
  by (simp add: nodePaths_def constructor_def sampleFavorites_def onPlacesUpdated_def
      buildNodes_def shortcutNode_def placeNode_def)

text \<open>
  C9, as the code has it. A rebuild of a tree of the shape the panel keeps raises
  nothing, whatever label and icon the entries have or lack. Nothing is put in the
  place of a missing label or icon: the node of a place or of a distribution has the
  label and the icon of its entry, missing if they are missing, and the path only as
  the title of the label; the node of a shortcut that has no label is labelled with the
  translation of \<open>FAVORITES_PANEL.undefined\<close> and has the icon that the table gives for
  \<open>undefined\<close>.
\<close>

theorem rebuild_raises_nothing:
  assumes "wellFormed p"
  shows "(\<exists>p'. buildNodes e favs p = Inr p' \<and>
            childNodes (nodes p' ! 0) = map (shortcutNode e) (shortcuts favs) \<and>
            childNodes (nodes p' ! 1) = map placeNode (places favs)) \<and>
         nlabel (placeNode f) = \<lparr>title = fpath f, content = flabel f\<rparr> \<and>
         nicon (placeNode f) = ficon f \<and>
         nlabel (distribNode f) = \<lparr>title = fpath f, content = flabel f\<rparr> \<and>
         nicon (distribNode f) = ficon f \<and>
         nlabel (shortcutNode e (f\<lparr>flabel := None\<rparr>)) =
           \<lparr>title = fpath f, content = Some (t e ''FAVORITES_PANEL.undefined'')\<rparr> \<and>
         nicon (shortcutNode e (f\<lparr>flabel := None\<rparr>)) = Icons e ''undefined''"
proof -
  from buildNodes_wellFormed [OF assms, of e favs] obtain p' where
    p': "buildNodes e favs p = Inr p'"
    "map childNodes (nodes p') =
       [map (shortcutNode e) (shortcuts favs), map placeNode (places favs)] @
       (if showDistributions p
        then [case distributions favs of
                Some ds \<Rightarrow> map distribNode ds
              | None \<Rightarrow> childNodes (nodes p ! 2)]
        else [])"
    by blast
  from p'(2) have len: "2 \<le> length (nodes p')"
    by (cases "showDistributions p") (auto dest: arg_cong [where f = length])
  from p'(2) have "map childNodes (nodes p') ! 0 = map (shortcutNode e) (shortcuts favs)"
    "map childNodes (nodes p') ! 1 = map placeNode (places favs)"
    by simp_all
  moreover from len have "0 < length (nodes p')" "1 < length (nodes p')"
    by auto
  ultimately have "childNodes (nodes p' ! 0) = map (shortcutNode e) (shortcuts favs)"
    "childNodes (nodes p' ! 1) = map placeNode (places favs)"
    by (simp_all only: nth_map)
  with p'(1) show ?thesis
    by (simp add: placeNode_def distribNode_def shortcutNode_def js_string_def)
qed

theorem rebuild_raises_nothing_witness:
  "wellFormed (constructor sampleEnv False bareFavorites) \<and>
   map_sum id nodePaths
     (buildNodes sampleEnv bareFavorites (constructor sampleEnv False bareFavorites)) =
     Inr [[''/home/u''], [''/data'']]"
proof -
  have w: "wellFormed (constructor sampleEnv False bareFavorites)"
    by (rule wellFormed_constructor)
  from rebuild_raises_nothing [OF w, of sampleEnv bareFavorites] obtain p' where
    p': "buildNodes sampleEnv bareFavorites (constructor sampleEnv False bareFavorites) = Inr p'"
    by blast
  then have "map_sum id nodePaths (Inr p' :: js_error + panel) = Inr [[''/home/u''], [''/data'']]"
    by (auto simp: nodePaths_def buildNodes_def constructor_def bareFavorites_def
        shortcutNode_def placeNode_def)
  with p' w show ?thesis by simp
qed

text \<open>
  The claim as written fails: for a place and a shortcut of which the store gives the
  path only, the place's node has no label and no icon, and the shortcut's node is
  labelled \<open>FAVORITES_PANEL.undefined\<close> (the key itself, where the key has no
  translation) and has no icon. The path does not stand in for either.
\<close>

theorem missing_label_and_icon_stay_missing:
  "map_sum id nodeFaces
     (buildNodes sampleEnv bareFavorites (constructor sampleEnv False bareFavorites)) =
     Inr [[(Some ''FAVORITES_PANEL.undefined'', None)], [(None, None)]]"
  by (simp add: buildNodes_def constructor_def bareFavorites_def sampleEnv_def nodeFaces_def
      shortcutNode_def placeNode_def js_string_def)

text \<open>
  C10, as the code has it. While the prop \<open>hide\<close> is true, the handlers of a change of
  the places and of a change of the distributions build nothing and leave the component
  as it is. The handler of a language change does not look at \<open>hide\<close>: it rebuilds.
\<close>

theorem hidden_panel_ignores_collection_changes:
  assumes "hide p"
  shows "onPlacesUpdated e p = Inr p \<and> onDistributionsUpdated e p = Inr p \<and>
         map_sum id nodes (step e (PlacesChanged xs) p) = Inr (nodes p) \<and>
         map_sum id nodes (step e (DistributionsChanged ys) p) = Inr (nodes p) \<and>
         onLanguageChanged e p = buildNodes e (favoritesState p) p"
  using assms
  by (simp add: onPlacesUpdated_def onDistributionsUpdated_def onLanguageChanged_def)

theorem hidden_panel_ignores_collection_changes_witness:
  "hide (constructor sampleEnv True sampleFavorites) \<and>
   map_sum id nodePaths
     (step sampleEnv (PlacesChanged []) (constructor sampleEnv True sampleFavorites)) =
     Inr [[], []]"
proof -
  have h: "hide (constructor sampleEnv True sampleFavorites)"
    by (simp add: constructor_def)
  from hidden_panel_ignores_collection_changes [OF h, of sampleEnv "[]"]
  have "map_sum id nodes
      (step sampleEnv (PlacesChanged []) (constructor sampleEnv True sampleFavorites)) =
      Inr (nodes (constructor sampleEnv True sampleFavorites))"
    by blast
  then have "map_sum id nodePaths
      (step sampleEnv (PlacesChanged []) (constructor sampleEnv True sampleFavorites)) =
      Inr (nodePaths (constructor sampleEnv True sampleFavorites))"
    by (cases "step sampleEnv (PlacesChanged []) (constructor sampleEnv True sampleFavorites)")
       (simp_all add: nodePaths_def)
  with h show ?thesis by (simp add: nodePaths_def constructor_def)
qed

text \<open>
  The claim as written fails where it has the tree follow the store only while the
  panel is visible: a language change rebuilds the tree of a hidden panel.
\<close>

theorem language_change_rebuilds_hidden_panel:
  "hide (constructor sampleEnv True sampleFavorites) \<and>
   nodePaths (constructor sampleEnv True sampleFavorites) = [[], []] \<and>
   map_sum id nodePaths
     (step sampleEnv LanguageChanged (constructor sampleEnv True sampleFavorites)) =
     Inr [[''/home/u''], [''/mnt/c'']]"
  by (simp add: nodePaths_def constructor_def sampleFavorites_def onLanguageChanged_def
      buildNodes_def shortcutNode_def placeNode_def)

section \<open>The identity of a node\<close>

text \<open>
  C8. The identity of a node is a prefix followed by the path of its entry: \<open>s_\<close> for a
  shortcut, \<open>p_\<close> for a place, and \<open>p_\<close> again for a distribution. In the tree built from
  the sample store, the node of the place and the node of the distribution, which have
  the same path, have the same identity.
\<close>

theorem place_and_distribution_share_identity:
  "nodePaths samplePanel = [[''/home/u''], [''/mnt/c''], [''/mnt/c'']] \<and>
   map_sum id nodeIds
     (buildNodes sampleEnv sampleFavorites
        (checkForWSL sampleEnv (Fulfilled True) (constructor sampleEnv False sampleFavorites))) =
     Inr [[''s_/home/u''], [''p_/mnt/c''], [''p_/mnt/c'']]"
  by (simp add: buildNodes_def checkForWSL_def constructor_def sampleFavorites_def nodeIds_def
      nodePaths_def samplePanel_def shortcutNode_def placeNode_def distribNode_def)

section \<open>Opening a favorite\<close>

subsection \<open>The branch for the other pane, step by step\<close>








text \<open>
  C7. A click without the modifier, with the active pane not ready (its status is not
  \<open>ok\<close>, or there is no active cache): \<open>openFavorite\<close> returns and the application is as it
  was, window, alerter and all, and so it is after \<open>onNodeClick\<close>. With the active pane
  ready, \<open>openFavorite\<close> asks that pane to navigate to the path, and a click without the
  modifier asks it to navigate to the path of the node clicked and leaves the alerter
  as it was.
\<close>

theorem same_view_needs_ready_pane:
  "(map_option status (getActiveCache (win w)) \<noteq> Some ''ok'' \<longrightarrow>
      openFavorite nav path True w = Returned w \<and>
      (\<not> (if isMac e then altKey ev else ctrlKey ev) \<longrightarrow> onNodeClick e nav node ev w = w)) \<and>
   (getActiveView (win w) = Some v \<and> status (visibleCache v) = ''ok'' \<longrightarrow>
      (\<exists>w'. openFavorite nav path True w = Returned w' \<and>
            navigations (win w') = navigations (win w) @ [(viewId v, path)]) \<and>
      (\<not> (if isMac e then altKey ev else ctrlKey ev) \<longrightarrow>
         navigations (win (onNodeClick e nav node ev w)) =
           navigations (win w) @ [(viewId v, nodeData node)] \<and>
         splitView (win (onNodeClick e nav node ev w)) = splitView (win w) \<and>
         appAlerter (onNodeClick e nav node ev w) = appAlerter w))"
proof -
  have notReady: "openFavorite nav p True w = Returned w"
    if "map_option status (getActiveCache (win w)) \<noteq> Some ''ok''" for p
    using that by (auto simp: openFavorite_def getActiveCache_def split: option.splits)
  have ready: "\<exists>w'. openFavorite nav p True w = Returned w' \<and>
            navigations (win w') = navigations (win w) @ [(viewId v, p)] \<and>
            splitView (win w') = splitView (win w) \<and> appAlerter w' = appAlerter w"
    if "getActiveView (win w) = Some v" "status (visibleCache v) = ''ok''" for p
    using that
    by (cases "nav (viewId v) p")
       (simp_all add: openFavorite_def dropPromise_def navigate_def Let_def)
  have click: "navigations (win (onNodeClick e nav node ev w)) =
           navigations (win w) @ [(viewId v, nodeData node)] \<and>
         splitView (win (onNodeClick e nav node ev w)) = splitView (win w) \<and>
         appAlerter (onNodeClick e nav node ev w) = appAlerter w"
    if "getActiveView (win w) = Some v" "status (visibleCache v) = ''ok''"
      "\<not> (if isMac e then altKey ev else ctrlKey ev)"
  proof -
    from ready [OF that(1) that(2), of "nodeData node"] obtain w' where
      w': "openFavorite nav (nodeData node) True w = Returned w'"
      "navigations (win w') = navigations (win w) @ [(viewId v, nodeData node)]"
      "splitView (win w') = splitView (win w)" "appAlerter w' = appAlerter w"
      by blast
    from w'(1) that(3) have "onNodeClick e nav node ev w = w'"
      by (simp add: onNodeClick_def)
    with w' show ?thesis by simp
  qed
  from notReady have a: "map_option status (getActiveCache (win w)) \<noteq> Some ''ok'' \<longrightarrow>
      openFavorite nav path True w = Returned w \<and>
      (\<not> (if isMac e then altKey ev else ctrlKey ev) \<longrightarrow> onNodeClick e nav node ev w = w)"
    by (auto simp: onNodeClick_def)
  from ready [of path] click show ?thesis
    using a by blast
qed

theorem same_view_needs_ready_pane_witness:
  "map_option status (getActiveCache (win busyWorld)) \<noteq> Some ''ok'' \<and>
   onNodeClick sampleEnv accepts sampleNode plainClick busyWorld = busyWorld \<and>
   getActiveView (win sampleWorld) = Some (view0 sampleWin) \<and>
   status (visibleCache (view0 sampleWin)) = ''ok'' \<and>
   (\<exists>w'. openFavorite accepts ''/data'' True sampleWorld = Returned w' \<and>
         navigations (win w') = [(0, ''/data'')]) \<and>
   navigations (win (onNodeClick sampleEnv accepts sampleNode plainClick sampleWorld)) =
     [(0, ''/data'')] \<and>
   \<not> splitView (win (onNodeClick sampleEnv accepts sampleNode plainClick sampleWorld)) \<and>
   appAlerter (onNodeClick sampleEnv accepts sampleNode plainClick sampleWorld) = Alerter"
proof -
  have a: "map_option status (getActiveCache (win busyWorld)) \<noteq> Some ''ok''"
    by (simp add: busyWorld_def sampleWorld_def sampleWin_def getActiveCache_def
        getActiveView_def)
  have b: "\<not> (if isMac sampleEnv then altKey plainClick else ctrlKey plainClick)"
    by (simp add: sampleEnv_def plainClick_def)
  have c: "getActiveView (win sampleWorld) = Some (view0 sampleWin)"
    "status (visibleCache (view0 sampleWin)) = ''ok''"
    by (simp_all add: sampleWorld_def sampleWin_def getActiveView_def)
  have d: "nodeData sampleNode = ''/data''" "viewId (view0 sampleWin) = 0"
    "navigations (win sampleWorld) = []" "\<not> splitView (win sampleWorld)"
    "appAlerter sampleWorld = Alerter"
    by (simp_all add: sampleNode_def placeNode_def sampleWin_def sampleWorld_def)
  from same_view_needs_ready_pane
    [of busyWorld accepts "nodeData sampleNode" sampleEnv plainClick sampleNode "view0 sampleWin"]
    a b
  have 1: "onNodeClick sampleEnv accepts sampleNode plainClick busyWorld = busyWorld"
    by blast
  from same_view_needs_ready_pane
    [of sampleWorld accepts "''/data''" sampleEnv plainClick sampleNode "view0 sampleWin"] b c
  have r: "\<exists>w'. openFavorite accepts ''/data'' True sampleWorld = Returned w' \<and>
         navigations (win w') =
           navigations (win sampleWorld) @ [(viewId (view0 sampleWin), ''/data'')]"
    "navigations (win (onNodeClick sampleEnv accepts sampleNode plainClick sampleWorld)) =
       navigations (win sampleWorld) @ [(viewId (view0 sampleWin), nodeData sampleNode)]"
    "splitView (win (onNodeClick sampleEnv accepts sampleNode plainClick sampleWorld)) =
       splitView (win sampleWorld)"
    "appAlerter (onNodeClick sampleEnv accepts sampleNode plainClick sampleWorld) =
       appAlerter sampleWorld"
    by blast+
  from r(1) d have 2: "\<exists>w'. openFavorite accepts ''/data'' True sampleWorld = Returned w' \<and>
         navigations (win w') = [(0, ''/data'')]"
    by simp
  from r(2) d have 3:
    "navigations (win (onNodeClick sampleEnv accepts sampleNode plainClick sampleWorld)) =
       [(0, ''/data'')]"
    by simp
  from r(3) d have 4:
    "\<not> splitView (win (onNodeClick sampleEnv accepts sampleNode plainClick sampleWorld))"
    by simp
  from r(4) d have 5:
    "appAlerter (onNodeClick sampleEnv accepts sampleNode plainClick sampleWorld) = Alerter"
    by simp
  from a 1 c 2 3 4 5 show ?thesis by blast
qed




text \<open>
  C1. A plain click on a node, the active pane ready, the navigation rejected with the
  failure \<open>permission denied\<close>, code \<open>EACCES\<close>. The navigation is asked for once; its
  rejection is left with no handler; the alerter is as it was created: no prompt is
  open, nothing was presented to it.
\<close>

theorem rejected_navigation_reaches_no_prompt:
  "refuses 0 ''/data'' = Rejected denied \<and>
   onNodeClick sampleEnv refuses sampleNode plainClick sampleWorld =
     sampleWorld\<lparr>win := sampleWin\<lparr>navigations := [(0, ''/data'')]\<rparr>, unhandled := [denied]\<rparr> \<and>
   appAlerter (onNodeClick sampleEnv refuses sampleNode plainClick sampleWorld) = Alerter \<and>
   trace Alerter = [] \<and> \<not> isOpen Alerter"
  by (simp add: onNodeClick_def openFavorite_def dropPromise_def navigate_def Let_def
      getActiveView_def sampleWorld_def sampleWin_def sampleNode_def placeNode_def
      sampleEnv_def plainClick_def refuses_def Alerter_def)

section \<open>The alerter serves one prompt at a time\<close>


lemma opened_simps [simp]:
  "opened [] = []"
  "opened (es @ es') = opened es @ opened es'"
  "opened (Opened d msg # es) = msg # opened es"
  "opened (Resolved d res # es) = opened es"
  by (simp_all add: opened_def)

lemma presented_simps [simp]:
  "presented [] = []"
  "presented (Present msg options # xs) = msg # presented xs"
  "presented (Answer res # xs) = presented xs"
  by (simp_all add: presented_def)










end
